theory Spec2Isabelle
  imports Main
begin

section \<open>Python values and the exceptions of the operations used\<close>

text \<open>
  The listing of the remote catalogue is decoded JSON, and the program reads it with
  dynamically typed dictionary and list accesses. A decoded value is a \<open>json\<close>; Python's
  \<open>None\<close> is \<open>JNull\<close>. An object is an association list that is read from the front.
  Numbers are integers (no claim depends on a fractional number).
\<close>

datatype json =
    JNull
  | JBool bool
  | JNum int
  | JStr string
  | JList "json list"
  | JObj "(string \<times> json) list"

datatype py_error =
    KeyError
  | IndexError
  | TypeError
  | AttributeError
  | ValueError
  | OSError
  | HTTPError
  | ConnectionError

text \<open>\<open>v[k]\<close> for a string key \<open>k\<close>: only a dictionary can be read this way.\<close>

fun py_getitem :: "json \<Rightarrow> string \<Rightarrow> py_error + json" where
  "py_getitem (JObj kvs) k = (case map_of kvs k of None \<Rightarrow> Inl KeyError | Some x \<Rightarrow> Inr x)"
| "py_getitem _ k = Inl TypeError"

text \<open>
  \<open>v[0]\<close>: the first element of a list, the first character of a string (a string of
  length one), \<open>KeyError\<close> on a dictionary (the keys of a decoded object are strings).
\<close>

fun py_getitem0 :: "json \<Rightarrow> py_error + json" where
  "py_getitem0 (JList []) = Inl IndexError"
| "py_getitem0 (JList (x # xs)) = Inr x"
| "py_getitem0 (JStr []) = Inl IndexError"
| "py_getitem0 (JStr (c # cs)) = Inr (JStr [c])"
| "py_getitem0 (JObj kvs) = Inl KeyError"
| "py_getitem0 _ = Inl TypeError"

text \<open>\<open>v.get(k, d)\<close>: a method of dictionaries only.\<close>

fun py_get :: "json \<Rightarrow> string \<Rightarrow> json \<Rightarrow> py_error + json" where
  "py_get (JObj kvs) k d = Inr (case map_of kvs k of None \<Rightarrow> d | Some x \<Rightarrow> x)"
| "py_get _ k d = Inl AttributeError"

text \<open>\<open>v.replace(c, s)\<close> for a one-character \<open>c\<close>: a method of strings only.\<close>

definition str_replace :: "char \<Rightarrow> string \<Rightarrow> string \<Rightarrow> string" where
  "str_replace c s xs = concat (map (\<lambda>x. if x = c then s else [x]) xs)"

fun py_replace :: "json \<Rightarrow> char \<Rightarrow> string \<Rightarrow> py_error + string" where
  "py_replace (JStr xs) c s = Inr (str_replace c s xs)"
| "py_replace _ c s = Inl AttributeError"

text \<open>Truth value of a value, as \<open>not v\<close> reads it.\<close>

fun py_truthy :: "json \<Rightarrow> bool" where
  "py_truthy JNull = False"
| "py_truthy (JBool b) = b"
| "py_truthy (JNum n) = (n \<noteq> 0)"
| "py_truthy (JStr s) = (s \<noteq> [])"
| "py_truthy (JList xs) = (xs \<noteq> [])"
| "py_truthy (JObj kvs) = (kvs \<noteq> [])"

text \<open>
  \<open>for x in v\<close>: the elements of a list, the characters of a string, the keys of a
  dictionary; any other value is not iterable.
\<close>

fun py_iter :: "json \<Rightarrow> py_error + json list" where
  "py_iter (JList xs) = Inr xs"
| "py_iter (JStr s) = Inr (map (\<lambda>c. JStr [c]) s)"
| "py_iter (JObj kvs) = Inr (map JStr (remdups (map fst kvs)))"
| "py_iter _ = Inl TypeError"

section \<open>Creation timestamps\<close>

text \<open>
  \<open>datetime.fromisoformat\<close> belongs to the standard library. The model covers the forms
  \<open>YYYY-MM-DD\<close> and \<open>YYYY-MM-DD*HH:MM:SS\<close> with an optional offset \<open>+HH:MM\<close> or
  \<open>-HH:MM\<close> (\<open>*\<close> is any one character), with the library's range checks on every
  field. A string outside these forms is answered with \<open>ValueError\<close>. The year of
  the result is the year as written: no conversion to UTC takes place.
\<close>

record datetime =
  dt_year :: nat
  dt_month :: nat
  dt_day :: nat
  dt_hour :: nat
  dt_minute :: nat
  dt_second :: nat
  dt_utcoffset :: "int option"

definition digit_val :: "char \<Rightarrow> nat option" where
  "digit_val =
     map_of [(CHR ''0'', 0), (CHR ''1'', 1), (CHR ''2'', 2), (CHR ''3'', 3), (CHR ''4'', 4),
             (CHR ''5'', 5), (CHR ''6'', 6), (CHR ''7'', 7), (CHR ''8'', 8), (CHR ''9'', 9)]"

fun digits_val :: "nat \<Rightarrow> string \<Rightarrow> nat option" where
  "digits_val acc [] = Some acc"
| "digits_val acc (c # cs) =
     (case digit_val c of None \<Rightarrow> None | Some d \<Rightarrow> digits_val (10 * acc + d) cs)"

definition is_leap :: "nat \<Rightarrow> bool" where
  "is_leap y = (y mod 4 = 0 \<and> (y mod 100 \<noteq> 0 \<or> y mod 400 = 0))"

definition days_in_month :: "nat \<Rightarrow> nat \<Rightarrow> nat" where
  "days_in_month y m =
     (if m = 2 then (if is_leap y then 29 else 28)
      else if m = 4 \<or> m = 6 \<or> m = 9 \<or> m = 11 then 30 else 31)"

definition parse_isoformat_date :: "string \<Rightarrow> (nat \<times> nat \<times> nat) option" where
  "parse_isoformat_date s =
     (if length s \<noteq> 10 \<or> s ! 4 \<noteq> CHR ''-'' \<or> s ! 7 \<noteq> CHR ''-'' then None
      else case (digits_val 0 (take 4 s), digits_val 0 (take 2 (drop 5 s)),
                 digits_val 0 (drop 8 s)) of
        (Some y, Some m, Some d) \<Rightarrow>
          if 1 \<le> y \<and> 1 \<le> m \<and> m \<le> 12 \<and> 1 \<le> d \<and> d \<le> days_in_month y m
          then Some (y, m, d) else None
      | _ \<Rightarrow> None)"

definition parse_hh_mm :: "string \<Rightarrow> (nat \<times> nat) option" where
  "parse_hh_mm s =
     (if length s \<noteq> 5 \<or> s ! 2 \<noteq> CHR '':'' then None
      else case (digits_val 0 (take 2 s), digits_val 0 (drop 3 s)) of
        (Some h, Some m) \<Rightarrow> if h < 24 \<and> m < 60 then Some (h, m) else None
      | _ \<Rightarrow> None)"

definition parse_offset :: "string \<Rightarrow> int option option" where
  "parse_offset s =
     (case s of
        [] \<Rightarrow> Some None
      | c # cs \<Rightarrow>
          if c \<noteq> CHR ''+'' \<and> c \<noteq> CHR ''-'' then None
          else (case parse_hh_mm cs of
            None \<Rightarrow> None
          | Some (h, m) \<Rightarrow>
              Some (Some ((if c = CHR ''-'' then - 1 else 1) * int (60 * h + m)))))"

definition parse_isoformat_time :: "string \<Rightarrow> (nat \<times> nat \<times> nat \<times> int option) option" where
  "parse_isoformat_time s =
     (if length s < 8 \<or> s ! 5 \<noteq> CHR '':'' then None
      else case (parse_hh_mm (take 5 s), digits_val 0 (take 2 (drop 6 s)),
                 parse_offset (drop 8 s)) of
        (Some (h, m), Some sec, Some off) \<Rightarrow>
          if sec < 60 then Some (h, m, sec, off) else None
      | _ \<Rightarrow> None)"

definition fromisoformat :: "string \<Rightarrow> py_error + datetime" where
  "fromisoformat s =
     (case parse_isoformat_date (take 10 s) of
        None \<Rightarrow> Inl ValueError
      | Some (y, m, d) \<Rightarrow>
          if length s = 10
          then Inr \<lparr>dt_year = y, dt_month = m, dt_day = d, dt_hour = 0, dt_minute = 0,
                    dt_second = 0, dt_utcoffset = None\<rparr>
          else (case parse_isoformat_time (drop 11 s) of
            None \<Rightarrow> Inl ValueError
          | Some (h, mi, sec, off) \<Rightarrow>
              Inr \<lparr>dt_year = y, dt_month = m, dt_day = d, dt_hour = h, dt_minute = mi,
                    dt_second = sec, dt_utcoffset = off\<rparr>))"

section \<open>The remote side, the file system and the observed events\<close>

text \<open>
  The remote catalogue and the network are not part of the program. An \<open>env\<close> fixes how
  they answer: the answer to a request depends on the request and on the number of
  requests issued before it (\<open>clock\<close>), so the same request may be answered differently
  at different times. The theorems hold for every \<open>env\<close>.

  \<^item> \<open>api_get c page\<close> answers \<open>vimeo_client.get('/me/videos', ...)\<close>: an exception, or a
    response with its status and its decoded body (\<open>None\<close> when \<open>response.json()\<close>
    raises);
  \<^item> \<open>session_get c link\<close> answers \<open>session.get(link, stream=True, timeout=30)\<close> after the
    transport's own retries: an exception, or a response with its status, the value of
    \<open>int(response.headers.get('content-length', 0))\<close> (or the exception it raises), the
    chunks that \<open>iter_content\<close> yields, and the exception that ends the chunk loop, if
    any (a broken connection, a failed write);
  \<^item> \<open>api_delete c uri\<close> answers \<open>vimeo_client.delete(uri)\<close>: an exception, or the status
    code of the response;
  \<^item> \<open>creatable path\<close> says whether \<open>open(path, 'wb')\<close> succeeds.
\<close>

record api_response =
  status_code :: nat
  body :: "json option"

record dl_response =
  dl_status :: nat
  content_length :: "py_error + int"
  chunks :: "string list"
  stream_error :: "py_error option"

record env =
  download_dir :: string
  api_get :: "nat \<Rightarrow> nat \<Rightarrow> py_error + api_response"
  session_get :: "nat \<Rightarrow> json \<Rightarrow> py_error + dl_response"
  api_delete :: "nat \<Rightarrow> json \<Rightarrow> py_error + nat"
  creatable :: "string \<Rightarrow> bool"

text \<open>
  What an observer of a run sees, in order: the requests sent, the log lines, and, for
  the item at position \<open>(page, index)\<close> of the listing, the return of its
  \<open>download_video\<close> call and the call and return of its \<open>delete_video\<close> call.
\<close>

datatype level = INFO | WARNING | ERROR

datatype logmsg =
    Fetch_error nat
  | No_download_link json
  | Skipping_existing string
  | Download_failed string
  | Deleted json
  | Delete_status json nat
  | Delete_error json
  | Item_error py_error
  | Complete int int

datatype event =
    Net_list nat
  | Net_get json
  | Net_delete json
  | Log level logmsg
  | Download_returned "nat \<times> nat" json string bool
  | Delete_called "nat \<times> nat" json
  | Delete_returned "nat \<times> nat" bool

text \<open>
  The state a run changes: the number of requests issued, the paths that exist with
  their contents, and the events so far. The run is the only writer of the download
  directory (the program is single-threaded), and \<open>os.remove\<close> of a path that exists
  succeeds.
\<close>

record world =
  clock :: nat
  files :: "string \<rightharpoonup> string"
  trace :: "event list"

record stats =
  processed :: int
  errors :: int

definition emit :: "event \<Rightarrow> world \<Rightarrow> world" where
  "emit e w = w\<lparr>trace := trace w @ [e]\<rparr>"

definition request :: "event \<Rightarrow> world \<Rightarrow> world" where
  "request e w = w\<lparr>clock := Suc (clock w), trace := trace w @ [e]\<rparr>"

section \<open>The operations of \<open>VimeoManager\<close>\<close>

text \<open>
  \<open>raise_for_status\<close> of a response raises for the client and server error statuses.
\<close>

definition raise_for_status :: "nat \<Rightarrow> bool" where
  "raise_for_status code = (400 \<le> code \<and> code < 600)"

text \<open>\<open>_get_videos\<close>: the value of the \<open>data\<close> key, or \<open>None\<close> after logging an error.\<close>

definition get_videos :: "env \<Rightarrow> world \<Rightarrow> nat \<Rightarrow> json \<times> world" where
  "get_videos env w page =
     (let w1 = request (Net_list page) w;
          failed = (JNull, emit (Log ERROR (Fetch_error page)) w1)
      in case api_get env (clock w) page of
           Inl e \<Rightarrow> failed
         | Inr response \<Rightarrow>
             if raise_for_status (status_code response) then failed
             else (case body response of
                     None \<Rightarrow> failed
                   | Some b \<Rightarrow>
                       (case py_get b ''data'' (JList []) of
                          Inl e \<Rightarrow> failed
                        | Inr d \<Rightarrow> (d, w1))))"

text \<open>
  \<open>_get_download_link\<close>: \<open>video['download'][0]['link']\<close>; a \<open>KeyError\<close> or an
  \<open>IndexError\<close> is logged and answered with \<open>None\<close>, any other exception propagates.
\<close>

definition download_link_of :: "json \<Rightarrow> py_error + json" where
  "download_link_of video =
     (case py_getitem video ''download'' of
        Inl e \<Rightarrow> Inl e
      | Inr d \<Rightarrow>
          (case py_getitem0 d of
             Inl e \<Rightarrow> Inl e
           | Inr x \<Rightarrow> py_getitem x ''link''))"

definition get_download_link :: "json \<Rightarrow> world \<Rightarrow> (py_error + json) \<times> world" where
  "get_download_link video w =
     (case download_link_of video of
        Inr l \<Rightarrow> (Inr l, w)
      | Inl e \<Rightarrow>
          if e = KeyError \<or> e = IndexError
          then (case py_get video ''uri'' (JStr ''unknown'') of
                  Inl e' \<Rightarrow> (Inl e', w)
                | Inr u \<Rightarrow> (Inr JNull, emit (Log WARNING (No_download_link u)) w))
          else (Inl e, w))"

text \<open>\<open>os.path.join\<close> of two components (POSIX).\<close>

definition os_path_join :: "string \<Rightarrow> string \<Rightarrow> string" where
  "os_path_join a b =
     (if b \<noteq> [] \<and> hd b = CHR ''/'' then b
      else if a = [] \<or> last a = CHR ''/'' then a @ b
      else a @ ''/'' @ b)"

definition target_path :: "env \<Rightarrow> string \<Rightarrow> string" where
  "target_path env video_name = os_path_join (download_dir env) (video_name @ ''.mp4'')"

text \<open>The \<open>except\<close> branch of \<open>download_video\<close>.\<close>

definition download_failed :: "string \<Rightarrow> string \<Rightarrow> world \<Rightarrow> bool \<times> world" where
  "download_failed file_path video_name w =
     (let w1 = emit (Log ERROR (Download_failed video_name)) w
      in (False,
          if files w1 file_path \<noteq> None then w1\<lparr>files := (files w1)(file_path := None)\<rparr>
          else w1))"

definition download_video :: "env \<Rightarrow> world \<Rightarrow> json \<Rightarrow> string \<Rightarrow> bool \<times> world" where
  "download_video env w download_link video_name =
     (let file_path = target_path env video_name
      in if files w file_path \<noteq> None
         then (True, emit (Log INFO (Skipping_existing video_name)) w)
         else
           (let w1 = request (Net_get download_link) w
            in case session_get env (clock w) download_link of
                 Inl e \<Rightarrow> download_failed file_path video_name w1
               | Inr response \<Rightarrow>
                   if raise_for_status (dl_status response)
                   then download_failed file_path video_name w1
                   else (case content_length response of
                           Inl e \<Rightarrow> download_failed file_path video_name w1
                         | Inr total_size \<Rightarrow>
                             if \<not> creatable env file_path
                             then download_failed file_path video_name w1
                             else
                               (let written = concat (filter (\<lambda>chunk. chunk \<noteq> [])
                                                        (chunks response));
                                    w2 = w1\<lparr>files := (files w1)(file_path \<mapsto> written)\<rparr>
                                in case stream_error response of
                                     None \<Rightarrow> (True, w2)
                                   | Some e \<Rightarrow> download_failed file_path video_name w2))))"

definition delete_video :: "env \<Rightarrow> world \<Rightarrow> json \<Rightarrow> bool \<times> world" where
  "delete_video env w video_uri =
     (let w1 = request (Net_delete video_uri) w
      in case api_delete env (clock w) video_uri of
           Inl e \<Rightarrow> (False, emit (Log ERROR (Delete_error video_uri)) w1)
         | Inr code \<Rightarrow>
             if code = 204 then (True, emit (Log INFO (Deleted video_uri)) w1)
             else (False, emit (Log WARNING (Delete_status video_uri code)) w1))"

section \<open>The processing loop\<close>

text \<open>Lines 142 to 143: the year of the parsed creation timestamp.\<close>

definition created_year :: "json \<Rightarrow> py_error + nat" where
  "created_year video =
     (case py_getitem video ''created_time'' of
        Inl e \<Rightarrow> Inl e
      | Inr t \<Rightarrow>
          (case py_replace t CHR ''Z'' ''+00:00'' of
             Inl e \<Rightarrow> Inl e
           | Inr s \<Rightarrow>
               (case fromisoformat s of
                  Inl e \<Rightarrow> Inl e
                | Inr created_time \<Rightarrow> Inr (dt_year created_time))))"

text \<open>Line 147: \<open>video.get('name', 'unnamed').replace('/', '_')\<close>.\<close>

definition video_name_of :: "json \<Rightarrow> py_error + string" where
  "video_name_of video =
     (case py_get video ''name'' (JStr ''unnamed'') of
        Inl e \<Rightarrow> Inl e
      | Inr n \<Rightarrow> py_replace n CHR ''/'' ''_'')"

text \<open>The \<open>except Exception\<close> branch of the item loop.\<close>

definition item_except :: "py_error \<Rightarrow> world \<Rightarrow> stats \<Rightarrow> world \<times> stats" where
  "item_except e w s = (emit (Log ERROR (Item_error e)) w, s\<lparr>errors := errors s + 1\<rparr>)"

text \<open>Lines 154 to 160: the download, and the deletion it gates.\<close>

definition download_then_delete ::
  "env \<Rightarrow> nat \<times> nat \<Rightarrow> json \<Rightarrow> json \<Rightarrow> string \<Rightarrow> world \<Rightarrow> stats \<Rightarrow> world \<times> stats" where
  "download_then_delete env pos video_uri download_link video_name w s =
     (case download_video env w download_link video_name of
        (ok, w1) \<Rightarrow>
          (let w2 = emit (Download_returned pos download_link video_name ok) w1
           in if ok
              then (case delete_video env (emit (Delete_called pos video_uri) w2) video_uri of
                      (deleted, w3) \<Rightarrow>
                        (let w4 = emit (Delete_returned pos deleted) w3
                         in if deleted then (w4, s\<lparr>processed := processed s + 1\<rparr>)
                            else (w4, s\<lparr>errors := errors s + 1\<rparr>)))
              else (w2, s\<lparr>errors := errors s + 1\<rparr>)))"

text \<open>
  The \<open>try\<close> block of the item loop. Its result is either the exception raised, with
  the state at that moment, or the state and the counters at its end. Every raise
  precedes every change of a counter, so the counters at a raise are those at entry.

  Lines 146 to 160, reached when the creation year is the target year:
\<close>

definition process_eligible ::
  "env \<Rightarrow> nat \<times> nat \<Rightarrow> json \<Rightarrow> world \<Rightarrow> stats \<Rightarrow> (py_error \<times> world) + (world \<times> stats)" where
  "process_eligible env pos video w s =
     (case py_getitem video ''uri'' of
        Inl e \<Rightarrow> Inl (e, w)
      | Inr video_uri \<Rightarrow>
          (case video_name_of video of
             Inl e \<Rightarrow> Inl (e, w)
           | Inr video_name \<Rightarrow>
               (case get_download_link video w of
                  (Inl e, w1) \<Rightarrow> Inl (e, w1)
                | (Inr download_link, w1) \<Rightarrow>
                    if \<not> py_truthy download_link
                    then Inr (w1, s\<lparr>errors := errors s + 1\<rparr>)
                    else Inr (download_then_delete env pos video_uri download_link
                                video_name w1 s))))"

text \<open>Lines 142 to 160: the whole \<open>try\<close> block; \<open>continue\<close> ends it with nothing changed.\<close>

definition item_body ::
  "env \<Rightarrow> int \<Rightarrow> nat \<times> nat \<Rightarrow> json \<Rightarrow> world \<Rightarrow> stats
     \<Rightarrow> (py_error \<times> world) + (world \<times> stats)" where
  "item_body env year pos video w s =
     (case created_year video of
        Inl e \<Rightarrow> Inl (e, w)
      | Inr y \<Rightarrow>
          if int y \<noteq> year then Inr (w, s)
          else process_eligible env pos video w s)"

text \<open>Lines 141 to 164: one item of a page, at position \<open>pos\<close> of the listing.\<close>

definition process_item ::
  "env \<Rightarrow> int \<Rightarrow> nat \<times> nat \<Rightarrow> json \<Rightarrow> world \<Rightarrow> stats \<Rightarrow> world \<times> stats" where
  "process_item env year pos video w s =
     (case item_body env year pos video w s of
        Inl (e, w') \<Rightarrow> item_except e w' s
      | Inr r \<Rightarrow> r)"

text \<open>Lines 140 to 164: the items of page \<open>page\<close>, from index \<open>i\<close> on.\<close>

fun process_items ::
  "env \<Rightarrow> int \<Rightarrow> nat \<Rightarrow> nat \<Rightarrow> json list \<Rightarrow> world \<Rightarrow> stats \<Rightarrow> world \<times> stats" where
  "process_items env year page i [] w s = (w, s)"
| "process_items env year page i (video # videos) w s =
     (case process_item env year (page, i) video w s of
        (w', s') \<Rightarrow> process_items env year page (Suc i) videos w' s')"

text \<open>
  Lines 135 to 166. \<open>while True\<close> runs for as long as the listing answers with a
  non-empty page, which may be forever: the first argument bounds the number of pages
  requested, and \<open>Out_of_fuel\<close> says that the loop was still running. A page that is
  not iterable raises outside the item loop's \<open>try\<close>, and the exception leaves
  \<open>process_videos\<close>.
\<close>

datatype run_status = Completed | Aborted py_error | Out_of_fuel

fun process_pages ::
  "nat \<Rightarrow> env \<Rightarrow> int \<Rightarrow> nat \<Rightarrow> world \<Rightarrow> stats \<Rightarrow> run_status \<times> world \<times> stats" where
  "process_pages 0 env year page w s = (Out_of_fuel, w, s)"
| "process_pages (Suc fuel) env year page w s =
     (case get_videos env w page of
        (videos, w1) \<Rightarrow>
          if \<not> py_truthy videos then (Completed, w1, s)
          else
            (case py_iter videos of
               Inl e \<Rightarrow> (Aborted e, w1, s)
             | Inr items \<Rightarrow>
                 (case process_items env year page 0 items w1 s of
                    (w2, s2) \<Rightarrow> process_pages fuel env year (page + 1) w2 s2)))"

definition process_videos ::
  "nat \<Rightarrow> env \<Rightarrow> int \<Rightarrow> world \<Rightarrow> run_status \<times> world \<times> stats" where
  "process_videos fuel env year w =
     (case process_pages fuel env year 1 w \<lparr>processed = 0, errors = 0\<rparr> of
        (status, w', s) \<Rightarrow>
          if status = Completed
          then (status, emit (Log INFO (Complete (processed s) (errors s))) w', s)
          else (status, w', s))"

section \<open>Counting requests\<close>

text \<open>The number of download requests (\<open>session.get\<close>) among the events of a trace.\<close>

fun is_transfer :: "event \<Rightarrow> bool" where
  "is_transfer (Net_get l) = True"
| "is_transfer _ = False"

definition transfers :: "event list \<Rightarrow> nat" where
  "transfers tr = length (filter is_transfer tr)"

text \<open>The number of deletion requests (\<open>vimeo_client.delete\<close>) among them.\<close>

fun is_deletion :: "event \<Rightarrow> bool" where
  "is_deletion (Net_delete u) = True"
| "is_deletion _ = False"

definition deletions :: "event list \<Rightarrow> nat" where
  "deletions tr = length (filter is_deletion tr)"

section \<open>The order of downloads and deletions in a trace\<close>

text \<open>
  Three properties of a sequence of events, each about every item position \<open>p\<close>:
  a call of \<open>delete_video\<close> for \<open>p\<close> comes after a successful return of
  \<open>download_video\<close> for \<open>p\<close>; a successful return of \<open>download_video\<close> for \<open>p\<close> has
  a call of \<open>delete_video\<close> for \<open>p\<close>; and a deletion request on the network is the
  first thing that follows a call of \<open>delete_video\<close> with the same URI.
\<close>

definition delete_gated :: "event list \<Rightarrow> bool" where
  "delete_gated tr =
     (\<forall>pre p u post. tr = pre @ Delete_called p u # post \<longrightarrow>
        (\<exists>l n. Download_returned p l n True \<in> set pre))"

definition download_answered :: "event list \<Rightarrow> bool" where
  "download_answered tr =
     (\<forall>p l n. Download_returned p l n True \<in> set tr \<longrightarrow> (\<exists>u. Delete_called p u \<in> set tr))"

definition deletion_called :: "event list \<Rightarrow> bool" where
  "deletion_called tr =
     (\<forall>pre u post. tr = pre @ Net_delete u # post \<longrightarrow>
        (\<exists>p pre'. pre = pre' @ [Delete_called p u]))"

definition well_ordered :: "event list \<Rightarrow> bool" where
  "well_ordered tr = (delete_gated tr \<and> download_answered tr \<and> deletion_called tr)"

text \<open>Requests of the listing and of a download, and log lines.\<close>

fun is_quiet :: "event \<Rightarrow> bool" where
  "is_quiet (Net_list page) = True"
| "is_quiet (Net_get l) = True"
| "is_quiet (Log lv msg) = True"
| "is_quiet _ = False"

section \<open>The states of a run\<close>

text \<open>
  \<open>run_reaches env year w0 w\<close>: the loop of \<open>process_videos\<close> can get from the state
  \<open>w0\<close> to the state \<open>w\<close>, by processing items and requesting pages, in any number and
  at any positions.
\<close>

inductive run_reaches :: "env \<Rightarrow> int \<Rightarrow> world \<Rightarrow> world \<Rightarrow> bool"
  for env :: env and year :: int and w0 :: world where
    reaches_start: "run_reaches env year w0 w0"
  | reaches_item:
      "run_reaches env year w0 w
       \<Longrightarrow> run_reaches env year w0 (fst (process_item env year pos video w s))"
  | reaches_page:
      "run_reaches env year w0 w \<Longrightarrow> run_reaches env year w0 (snd (get_videos env w page))"

section \<open>Example inputs\<close>

text \<open>
  Concrete items, answers of the remote side and states, on which the theorems below
  are also evaluated.
\<close>

definition mk_item :: "string \<Rightarrow> string \<Rightarrow> string \<Rightarrow> string \<Rightarrow> json" where
  "mk_item uri name created link =
     JObj [(''uri'', JStr uri), (''name'', JStr name), (''created_time'', JStr created),
           (''download'', JList [JObj [(''link'', JStr link)]])]"

definition item_a :: json where
  "item_a = mk_item ''/videos/1'' ''a/b'' ''2022-12-31T23:59:59Z'' ''https://cdn/1''"

definition item_b :: json where
  "item_b = mk_item ''/videos/2'' ''a/b'' ''2022-06-01T10:00:00Z'' ''https://cdn/2''"

definition item_2023 :: json where
  "item_2023 = mk_item ''/videos/3'' ''later'' ''2023-01-01T00:00:00Z'' ''https://cdn/3''"

definition item_malformed :: json where
  "item_malformed = mk_item ''/videos/4'' ''broken'' ''yesterday'' ''https://cdn/4''"

definition item_no_link :: json where
  "item_no_link =
     JObj [(''uri'', JStr ''/videos/5''), (''name'', JStr ''bare''),
           (''created_time'', JStr ''2022-03-04T05:06:07Z'')]"

definition item_no_uri :: json where
  "item_no_uri =
     JObj [(''name'', JStr ''anonymous''), (''created_time'', JStr ''2022-02-02T02:02:02Z'')]"

definition item_empty_name :: json where
  "item_empty_name = mk_item ''/videos/6'' [] ''2022-01-01T00:00:00Z'' ''https://cdn/6''"

definition ok_page :: "json list \<Rightarrow> py_error + api_response" where
  "ok_page items = Inr \<lparr>status_code = 200, body = Some (JObj [(''data'', JList items)])\<rparr>"

definition ok_download :: "string list \<Rightarrow> py_error + dl_response" where
  "ok_download cs =
     Inr \<lparr>dl_status = 200, content_length = Inr (int (length (concat cs))), chunks = cs,
          stream_error = None\<rparr>"

definition broken_download :: "string list \<Rightarrow> py_error + dl_response" where
  "broken_download cs =
     Inr \<lparr>dl_status = 200, content_length = Inr 1000, chunks = cs,
          stream_error = Some ConnectionError\<rparr>"

text \<open>
  A remote side on which everything works: page 1 lists the given items, every later
  page is empty, a download yields the link's text as content, a deletion is answered
  with 204.
\<close>

definition good_env :: "json list \<Rightarrow> env" where
  "good_env items =
     \<lparr>download_dir = ''downloads'',
      api_get = (\<lambda>c page. if page = 1 then ok_page items else ok_page []),
      session_get = (\<lambda>c link. case link of JStr l \<Rightarrow> ok_download [l] | _ \<Rightarrow> Inl ConnectionError),
      api_delete = (\<lambda>c uri. Inr 204),
      creatable = (\<lambda>path. True)\<rparr>"

text \<open>The same, but the request number \<open>bad\<close> of the run, a download, breaks mid-stream.\<close>

definition flaky_env :: "json list \<Rightarrow> nat \<Rightarrow> env" where
  "flaky_env items bad =
     (good_env items)
       \<lparr>session_get := (\<lambda>c link. if c = bad then broken_download [''ab'']
                                 else session_get (good_env items) c link)\<rparr>"

text \<open>The same as \<open>good_env\<close>, but the API refuses every deletion.\<close>

definition refusing_env :: "json list \<Rightarrow> env" where
  "refusing_env items = (good_env items)\<lparr>api_delete := (\<lambda>c uri. Inr 403)\<rparr>"

text \<open>The same, but every listing request fails in the transport.\<close>

definition down_env :: env where
  "down_env = (good_env [])\<lparr>api_get := (\<lambda>c page. Inl ConnectionError)\<rparr>"

definition world0 :: world where
  "world0 = \<lparr>clock = 0, files = Map.empty, trace = []\<rparr>"

definition stats0 :: stats where
  "stats0 = \<lparr>processed = 0, errors = 0\<rparr>"

section \<open>Evaluation\<close>

text \<open>The defining equations, for evaluating the model on the example inputs.\<close>

lemmas model_defs =
  process_videos_def get_videos_def request_def emit_def raise_for_status_def
  process_item_def item_body_def item_except_def created_year_def str_replace_def
  fromisoformat_def parse_isoformat_date_def parse_isoformat_time_def parse_hh_mm_def
  parse_offset_def digit_val_def days_in_month_def is_leap_def process_eligible_def
  video_name_of_def get_download_link_def download_link_of_def download_then_delete_def
  download_video_def download_failed_def target_path_def os_path_join_def delete_video_def
  transfers_def deletions_def Let_def

lemmas example_defs =
  good_env_def flaky_env_def refusing_env_def down_env_def ok_page_def ok_download_def broken_download_def world0_def
  stats0_def item_a_def item_b_def item_2023_def item_malformed_def item_no_uri_def item_no_link_def
  item_empty_name_def mk_item_def

section \<open>\<open>delete_video\<close>\<close>

text \<open>
  C7. \<open>delete_video\<close> returns success exactly when the API answers the deletion with
  status 204. Every other status and every exception of the request gives the result
  \<open>False\<close> (the function has no exceptional result). One call sends exactly one
  deletion request: the events it adds are that request and one log line, and it
  leaves the files alone.
\<close>

theorem delete_video_success_iff_204:
  "fst (delete_video env w video_uri) = (api_delete env (clock w) video_uri = Inr 204)
   \<and> (\<exists>lv msg. trace (snd (delete_video env w video_uri))
                   = trace w @ [Net_delete video_uri, Log lv msg])
   \<and> clock (snd (delete_video env w video_uri)) = Suc (clock w)
   \<and> files (snd (delete_video env w video_uri)) = files w"
  by (auto simp: delete_video_def request_def emit_def Let_def split: sum.splits)

section \<open>\<open>download_video\<close>\<close>

lemma concat_nonempty_chunks: "concat (filter (\<lambda>chunk. chunk \<noteq> []) cs) = concat cs"
  by (induction cs) auto

lemma download_video_True_file:
  "download_video env w link video_name = (True, w1)
   \<Longrightarrow> files w1 (target_path env video_name) \<noteq> None"
  by (auto simp: download_video_def download_failed_def request_def emit_def Let_def
      split: sum.splits option.splits if_splits)


text \<open>
  C2. When no file exists at the target path before the call, \<open>download_video\<close>
  returns success exactly when the connection is made, the status is no error, the
  content length is read, the file is opened and the stream ends without an exception.
  After a success the file holds all the chunks of the response; after a failure no
  file exists at the target path, and no other path is touched either way.
\<close>

theorem download_video_no_partial_file:
  assumes "files w (target_path env video_name) = None"
  shows "fst (download_video env w download_link video_name)
           = (\<exists>r total. session_get env (clock w) download_link = Inr r
                 \<and> \<not> raise_for_status (dl_status r) \<and> content_length r = Inr total
                 \<and> creatable env (target_path env video_name) \<and> stream_error r = None)
       \<and> (if fst (download_video env w download_link video_name)
          then \<exists>r. session_get env (clock w) download_link = Inr r
                 \<and> files (snd (download_video env w download_link video_name))
                      = (files w)(target_path env video_name \<mapsto> concat (chunks r))
          else files (snd (download_video env w download_link video_name)) = files w)"
  using assms
  by (auto simp: download_video_def download_failed_def request_def emit_def Let_def
      concat_nonempty_chunks split: sum.splits option.splits)

theorem download_video_no_partial_file_witness:
  "files world0 (target_path (flaky_env [] 0) ''a_b'') = None
   \<and> \<not> fst (download_video (flaky_env [] 0) world0 (JStr ''https://cdn/1'') ''a_b'')
   \<and> files (snd (download_video (flaky_env [] 0) world0 (JStr ''https://cdn/1'') ''a_b''))
        (target_path (flaky_env [] 0) ''a_b'') = None"
  using download_video_no_partial_file
          [of world0 "flaky_env [] 0" "''a_b''" "JStr ''https://cdn/1''"]
  by (simp add: model_defs example_defs)




section \<open>Names, paths and the year filter\<close>









section \<open>The counters of one item\<close>

lemma delete_video_files: "delete_video env w u = (d, w') \<Longrightarrow> files w' = files w"
  by (auto simp: delete_video_def request_def emit_def Let_def split: sum.splits if_splits)

lemma download_video_deletions:
  "deletions (trace (snd (download_video env w link video_name))) = deletions (trace w)"
  by (auto simp: download_video_def download_failed_def request_def emit_def Let_def
      deletions_def split: sum.splits option.splits if_splits)

lemma download_then_delete_failed:
  assumes "download_video env w link video_name = (False, w1)"
  shows "download_then_delete env pos video_uri link video_name w s
           = (emit (Download_returned pos link video_name False) w1,
              s\<lparr>errors := errors s + 1\<rparr>)"
  using assms by (simp add: download_then_delete_def)

lemma download_then_delete_deleted:
  assumes "download_video env w link video_name = (True, w1)"
    and "delete_video env (emit (Delete_called pos video_uri)
            (emit (Download_returned pos link video_name True) w1)) video_uri = (d, w2)"
  shows "download_then_delete env pos video_uri link video_name w s
           = (emit (Delete_returned pos d) w2,
              if d then s\<lparr>processed := processed s + 1\<rparr> else s\<lparr>errors := errors s + 1\<rparr>)"
  using assms by (simp add: download_then_delete_def Let_def)

lemma download_then_delete_stats:
  "snd (download_then_delete env pos video_uri link video_name w s) = s\<lparr>processed := processed s + 1\<rparr>
   \<or> snd (download_then_delete env pos video_uri link video_name w s) = s\<lparr>errors := errors s + 1\<rparr>"
  by (auto simp: download_then_delete_def Let_def split: prod.splits)

lemma stats_changed: "s\<lparr>processed := processed s + 1\<rparr> \<noteq> s" "s\<lparr>errors := errors s + 1\<rparr> \<noteq> s"
  by (cases s; simp)+

lemma process_eligible_stats:
  assumes "process_eligible env pos video w s = Inr (w', s')"
  shows "s' = s\<lparr>processed := processed s + 1\<rparr> \<or> s' = s\<lparr>errors := errors s + 1\<rparr>"
proof -
  from assms consider
      (nolink) "s' = s\<lparr>errors := errors s + 1\<rparr>"
    | (dl) u l n w1 where "download_then_delete env pos u l n w1 s = (w', s')"
    by (auto simp: process_eligible_def split: sum.splits prod.splits if_splits)
  then show ?thesis
  proof cases
    case nolink
    then show ?thesis by simp
  next
    case dl
    then have "s' = snd (download_then_delete env pos u l n w1 s)"
      by (metis snd_conv)
    then show ?thesis
      using download_then_delete_stats [of env pos u l n w1 s] by simp
  qed
qed

lemma process_item_stats_cases:
  "(\<exists>y. created_year video = Inr y \<and> int y \<noteq> year \<and> process_item env year pos video w s = (w, s))
   \<or> (\<not> (\<exists>y. created_year video = Inr y \<and> int y \<noteq> year) \<and>
       (snd (process_item env year pos video w s) = s\<lparr>processed := processed s + 1\<rparr>
        \<or> snd (process_item env year pos video w s) = s\<lparr>errors := errors s + 1\<rparr>))"
proof (cases "item_body env year pos video w s")
  case (Inl a)
  then show ?thesis
    by (cases a) (auto simp: process_item_def item_body_def item_except_def split: sum.splits if_splits)
next
  case (Inr b)
  then show ?thesis
    by (cases b) (auto simp: process_item_def item_body_def split: sum.splits if_splits dest: process_eligible_stats)
qed


lemma process_item_eligible:
  assumes "created_year video = Inr y" "int y = year"
    "py_getitem video ''uri'' = Inr video_uri" "video_name_of video = Inr video_name"
    "get_download_link video w = (Inr link, w1)"
  shows "process_item env year pos video w s
           = (if py_truthy link
              then download_then_delete env pos video_uri link video_name w1 s
              else (w1, s\<lparr>errors := errors s + 1\<rparr>))"
  using assms by (simp add: process_item_def item_body_def process_eligible_def)

text \<open>
  C5. The counters after one item. An item whose creation year is not the target year
  changes nothing. An item of the target year with a URI and a name goes by its
  download link: a missing (or otherwise false) link adds 1 to \<open>errors\<close> and nothing
  is downloaded; otherwise lines 154 to 160 run. There a failed download adds 1 to
  \<open>errors\<close> and sends no deletion request; a download and a deletion that both
  succeed add 1 to \<open>processed\<close>; a successful download followed by a failed deletion
  adds 1 to \<open>errors\<close> and the local file stays. The counters are unchanged exactly for
  an out-of-year item; for every other item exactly one counter grows, by exactly 1.
\<close>

theorem item_counters:
  "(created_year video = Inr y \<and> int y \<noteq> year \<longrightarrow>
      process_item env year pos video w s = (w, s))
   \<and> (created_year video = Inr y \<and> int y = year
        \<and> py_getitem video ''uri'' = Inr video_uri \<and> video_name_of video = Inr video_name
        \<and> get_download_link video w = (Inr link, w1) \<longrightarrow>
      process_item env year pos video w s
        = (if py_truthy link
           then download_then_delete env pos video_uri link video_name w1 s
           else (w1, s\<lparr>errors := errors s + 1\<rparr>)))
   \<and> (download_video env w link video_name = (False, w2) \<longrightarrow>
      download_then_delete env pos video_uri link video_name w s
        = (emit (Download_returned pos link video_name False) w2,
           s\<lparr>errors := errors s + 1\<rparr>)
      \<and> deletions (trace (fst (download_then_delete env pos video_uri link video_name w s)))
          = deletions (trace w))
   \<and> (download_video env w link video_name = (True, w2)
        \<and> delete_video env (emit (Delete_called pos video_uri)
              (emit (Download_returned pos link video_name True) w2)) video_uri = (True, w3) \<longrightarrow>
      download_then_delete env pos video_uri link video_name w s
        = (emit (Delete_returned pos True) w3, s\<lparr>processed := processed s + 1\<rparr>))
   \<and> (download_video env w link video_name = (True, w2)
        \<and> delete_video env (emit (Delete_called pos video_uri)
              (emit (Download_returned pos link video_name True) w2)) video_uri = (False, w3) \<longrightarrow>
      download_then_delete env pos video_uri link video_name w s
        = (emit (Delete_returned pos False) w3, s\<lparr>errors := errors s + 1\<rparr>)
      \<and> files w3 = files w2 \<and> files w3 (target_path env video_name) \<noteq> None)
   \<and> (snd (process_item env year pos video w s) = s)
       = (\<exists>y. created_year video = Inr y \<and> int y \<noteq> year)
   \<and> snd (process_item env year pos video w s)
       \<in> {s, s\<lparr>processed := processed s + 1\<rparr>, s\<lparr>errors := errors s + 1\<rparr>}"
proof (intro conjI impI)
  assume "created_year video = Inr y \<and> int y \<noteq> year"
  then show "process_item env year pos video w s = (w, s)"
    by (simp add: process_item_def item_body_def)
next
  assume "created_year video = Inr y \<and> int y = year
        \<and> py_getitem video ''uri'' = Inr video_uri \<and> video_name_of video = Inr video_name
        \<and> get_download_link video w = (Inr link, w1)"
  then show "process_item env year pos video w s
        = (if py_truthy link
           then download_then_delete env pos video_uri link video_name w1 s
           else (w1, s\<lparr>errors := errors s + 1\<rparr>))"
    by (simp add: process_item_eligible)
next
  assume dl: "download_video env w link video_name = (False, w2)"
  then show res: "download_then_delete env pos video_uri link video_name w s
        = (emit (Download_returned pos link video_name False) w2,
           s\<lparr>errors := errors s + 1\<rparr>)"
    by (rule download_then_delete_failed)
  show "deletions (trace (fst (download_then_delete env pos video_uri link video_name w s)))
          = deletions (trace w)"
    using download_video_deletions [of env w link video_name] dl
    by (simp add: res emit_def deletions_def)
next
  assume "download_video env w link video_name = (True, w2)
        \<and> delete_video env (emit (Delete_called pos video_uri)
              (emit (Download_returned pos link video_name True) w2)) video_uri = (True, w3)"
  then show "download_then_delete env pos video_uri link video_name w s
        = (emit (Delete_returned pos True) w3, s\<lparr>processed := processed s + 1\<rparr>)"
    using download_then_delete_deleted [of env w link video_name w2 pos video_uri True w3 s]
    by simp
next
  assume a: "download_video env w link video_name = (True, w2)
        \<and> delete_video env (emit (Delete_called pos video_uri)
              (emit (Download_returned pos link video_name True) w2)) video_uri = (False, w3)"
  then show "download_then_delete env pos video_uri link video_name w s
        = (emit (Delete_returned pos False) w3, s\<lparr>errors := errors s + 1\<rparr>)"
    using download_then_delete_deleted [of env w link video_name w2 pos video_uri False w3 s]
    by simp
  from a show f: "files w3 = files w2"
    using delete_video_files [of env _ video_uri False w3] by (auto simp: emit_def)
  from a show "files w3 (target_path env video_name) \<noteq> None"
    using download_video_True_file [of env w link video_name w2] by (simp add: f)
next
  show "(snd (process_item env year pos video w s) = s)
       = (\<exists>y. created_year video = Inr y \<and> int y \<noteq> year)"
    using process_item_stats_cases [of video year env pos w s] stats_changed [of s]
    by auto
next
  show "snd (process_item env year pos video w s)
       \<in> {s, s\<lparr>processed := processed s + 1\<rparr>, s\<lparr>errors := errors s + 1\<rparr>}"
    using process_item_stats_cases [of video year env pos w s] by auto
qed


theorem item_counters_witness:
  "process_item (good_env []) 2022 (1, 0) item_2023 world0 stats0 = (world0, stats0)
   \<and> snd (process_item (good_env []) 2022 (1, 0) item_no_link world0 stats0)
       = \<lparr>processed = 0, errors = 1\<rparr>
   \<and> snd (process_item (good_env []) 2022 (1, 0) item_a world0 stats0)
       = \<lparr>processed = 1, errors = 0\<rparr>
   \<and> snd (process_item (flaky_env [] 0) 2022 (1, 0) item_a world0 stats0)
       = \<lparr>processed = 0, errors = 1\<rparr>
   \<and> snd (process_item (refusing_env []) 2022 (1, 0) item_a world0 stats0)
       = \<lparr>processed = 0, errors = 1\<rparr>"
proof -
  let ?l = "JStr ''https://cdn/1''" and ?u = "JStr ''/videos/1''"
  have skip: "created_year item_2023 = Inr 2023 \<and> int 2023 \<noteq> 2022"
    by (simp add: model_defs example_defs)
  have r1: "process_item (good_env []) 2022 (1, 0) item_2023 world0 stats0 = (world0, stats0)"
    using item_counters [THEN conjunct1, rule_format, OF skip] .
  have bare: "created_year item_no_link = Inr 2022 \<and> int 2022 = 2022
        \<and> py_getitem item_no_link ''uri'' = Inr (JStr ''/videos/5'')
        \<and> video_name_of item_no_link = Inr ''bare''
        \<and> get_download_link item_no_link world0
            = (Inr JNull, emit (Log WARNING (No_download_link (JStr ''/videos/5''))) world0)"
    by (simp add: model_defs example_defs)
  have r2: "snd (process_item (good_env []) 2022 (1, 0) item_no_link world0 stats0)
       = \<lparr>processed = 0, errors = 1\<rparr>"
    using item_counters [THEN conjunct2, THEN conjunct1, rule_format, OF bare,
            of "good_env []" "(1, 0)" stats0]
    by (simp add: stats0_def)
  have a: "created_year item_a = Inr 2022 \<and> int 2022 = 2022
        \<and> py_getitem item_a ''uri'' = Inr ?u
        \<and> video_name_of item_a = Inr ''a_b''
        \<and> get_download_link item_a world0 = (Inr ?l, world0)"
    by (simp add: model_defs example_defs)
  have elig: "process_item env 2022 (1, 0) item_a world0 stats0
        = download_then_delete env (1, 0) ?u ?l ''a_b'' world0 stats0" for env
    using item_counters [THEN conjunct2, THEN conjunct1, rule_format, OF a, of env "(1, 0)" stats0]
    by simp
  have good: "download_video (good_env []) world0 ?l ''a_b''
          = (True, snd (download_video (good_env []) world0 ?l ''a_b''))
      \<and> delete_video (good_env []) (emit (Delete_called (1, 0) ?u)
            (emit (Download_returned (1, 0) ?l ''a_b'' True)
               (snd (download_video (good_env []) world0 ?l ''a_b'')))) ?u
          = (True, snd (delete_video (good_env []) (emit (Delete_called (1, 0) ?u)
            (emit (Download_returned (1, 0) ?l ''a_b'' True)
               (snd (download_video (good_env []) world0 ?l ''a_b'')))) ?u))"
    by (simp add: model_defs example_defs)
  have r3: "snd (process_item (good_env []) 2022 (1, 0) item_a world0 stats0)
       = \<lparr>processed = 1, errors = 0\<rparr>"
    using item_counters [THEN conjunct2, THEN conjunct2, THEN conjunct2, THEN conjunct1,
            rule_format, OF good, of stats0]
    unfolding elig by (simp add: stats0_def)
  have flaky: "download_video (flaky_env [] 0) world0 ?l ''a_b''
          = (False, snd (download_video (flaky_env [] 0) world0 ?l ''a_b''))"
    by (simp add: model_defs example_defs)
  have r4: "snd (process_item (flaky_env [] 0) 2022 (1, 0) item_a world0 stats0)
       = \<lparr>processed = 0, errors = 1\<rparr>"
    using item_counters [THEN conjunct2, THEN conjunct2, THEN conjunct1,
            rule_format, OF flaky, of "(1, 0)" ?u stats0]
    unfolding elig by (simp add: stats0_def)
  have refusing: "download_video (refusing_env []) world0 ?l ''a_b''
          = (True, snd (download_video (refusing_env []) world0 ?l ''a_b''))
      \<and> delete_video (refusing_env []) (emit (Delete_called (1, 0) ?u)
            (emit (Download_returned (1, 0) ?l ''a_b'' True)
               (snd (download_video (refusing_env []) world0 ?l ''a_b'')))) ?u
          = (False, snd (delete_video (refusing_env []) (emit (Delete_called (1, 0) ?u)
            (emit (Download_returned (1, 0) ?l ''a_b'' True)
               (snd (download_video (refusing_env []) world0 ?l ''a_b'')))) ?u))"
    by (simp add: model_defs example_defs)
  have r5: "snd (process_item (refusing_env []) 2022 (1, 0) item_a world0 stats0)
       = \<lparr>processed = 0, errors = 1\<rparr>"
    using item_counters [THEN conjunct2, THEN conjunct2, THEN conjunct2, THEN conjunct2,
            THEN conjunct1, rule_format, OF refusing, of stats0]
    unfolding elig by (simp add: stats0_def)
  show ?thesis using r1 r2 r3 r4 r5 by simp
qed

section \<open>The end of the pagination loop\<close>

lemma get_videos_failed:
  assumes "api_get env (clock w) page = Inl e
      \<or> (\<exists>r. api_get env (clock w) page = Inr r
            \<and> (raise_for_status (status_code r) \<or> body r = None
                \<or> (\<exists>b e'. body r = Some b \<and> py_get b ''data'' (JList []) = Inl e')))"
  shows "get_videos env w page
           = (JNull, emit (Log ERROR (Fetch_error page)) (request (Net_list page) w))"
  using assms by (auto simp: get_videos_def Let_def)

lemma get_videos_ok:
  assumes "api_get env (clock w) page = Inr r" "\<not> raise_for_status (status_code r)"
    "body r = Some b" "py_get b ''data'' (JList []) = Inr d"
  shows "get_videos env w page = (d, request (Net_list page) w)"
  using assms by (simp add: get_videos_def Let_def)

text \<open>
  C4. For every page number, a listing request that fails (an exception of the
  request, an error status, a body that is not JSON or not an object) and one that
  answers with an empty page end the loop in the same way: \<open>process_pages\<close> completes
  after this one request, with the counters as they were and no further page
  requested. The two final states differ in one event: the failure is logged as an
  error.
\<close>

theorem listing_failure_ends_loop_like_empty_page:
  "(api_get env (clock w) page = Inl e
      \<or> (\<exists>r. api_get env (clock w) page = Inr r
            \<and> (raise_for_status (status_code r) \<or> body r = None
                \<or> (\<exists>b e'. body r = Some b \<and> py_get b ''data'' (JList []) = Inl e')))
    \<longrightarrow> get_videos env w page
          = (JNull, emit (Log ERROR (Fetch_error page)) (request (Net_list page) w))
        \<and> process_pages (Suc fuel) env year page w s
          = (Completed, emit (Log ERROR (Fetch_error page)) (request (Net_list page) w), s))
   \<and> (api_get env (clock w) page = Inr r \<and> \<not> raise_for_status (status_code r)
        \<and> body r = Some b \<and> py_get b ''data'' (JList []) = Inr (JList [])
    \<longrightarrow> get_videos env w page = (JList [], request (Net_list page) w)
        \<and> process_pages (Suc fuel) env year page w s
          = (Completed, request (Net_list page) w, s))"
proof (intro conjI impI)
  assume f: "api_get env (clock w) page = Inl e
      \<or> (\<exists>r. api_get env (clock w) page = Inr r
            \<and> (raise_for_status (status_code r) \<or> body r = None
                \<or> (\<exists>b e'. body r = Some b \<and> py_get b ''data'' (JList []) = Inl e')))"
  then show g: "get_videos env w page
          = (JNull, emit (Log ERROR (Fetch_error page)) (request (Net_list page) w))"
    by (rule get_videos_failed)
  show "process_pages (Suc fuel) env year page w s
          = (Completed, emit (Log ERROR (Fetch_error page)) (request (Net_list page) w), s)"
    by (simp add: g)
next
  assume a: "api_get env (clock w) page = Inr r \<and> \<not> raise_for_status (status_code r)
        \<and> body r = Some b \<and> py_get b ''data'' (JList []) = Inr (JList [])"
  then show g: "get_videos env w page = (JList [], request (Net_list page) w)"
    by (simp add: get_videos_ok)
  show "process_pages (Suc fuel) env year page w s
          = (Completed, request (Net_list page) w, s)"
    by (simp add: g)
qed

theorem listing_failure_ends_loop_like_empty_page_witness:
  "process_pages (Suc 5) down_env 2022 3 world0 stats0
     = (Completed, emit (Log ERROR (Fetch_error 3)) (request (Net_list 3) world0), stats0)
   \<and> process_pages (Suc 5) (good_env [item_a]) 2022 3 world0 stats0
     = (Completed, request (Net_list 3) world0, stats0)"
proof -
  have down: "api_get down_env (clock world0) 3 = Inl ConnectionError
      \<or> (\<exists>r. api_get down_env (clock world0) 3 = Inr r
            \<and> (raise_for_status (status_code r) \<or> body r = None
                \<or> (\<exists>b e'. body r = Some b \<and> py_get b ''data'' (JList []) = Inl e')))"
    by (simp add: example_defs)
  have empty: "api_get (good_env [item_a]) (clock world0) 3
        = Inr \<lparr>status_code = 200, body = Some (JObj [(''data'', JList [])])\<rparr>
      \<and> \<not> raise_for_status (status_code \<lparr>status_code = 200, body = Some (JObj [(''data'', JList [])])\<rparr>)
      \<and> body \<lparr>status_code = 200, body = Some (JObj [(''data'', JList [])])\<rparr>
          = Some (JObj [(''data'', JList [])])
      \<and> py_get (JObj [(''data'', JList [])]) ''data'' (JList []) = Inr (JList [])"
    by (simp add: example_defs raise_for_status_def)
  show ?thesis
    using listing_failure_ends_loop_like_empty_page
            [THEN conjunct1, rule_format, OF down, THEN conjunct2, of 5 2022 stats0]
          listing_failure_ends_loop_like_empty_page
            [THEN conjunct2, rule_format, OF empty, THEN conjunct2, of 5 2022 stats0]
    by simp
qed

section \<open>Exceptions inside an item\<close>

lemma process_items_append:
  "process_items env year page i (xs @ ys) w s
     = (case process_items env year page i xs w s of
          (w', s') \<Rightarrow> process_items env year page (i + length xs) ys w' s')"
  by (induction xs arbitrary: i w s) (auto split: prod.splits)

lemma process_pages_list:
  assumes "get_videos env w0 page = (JList items, w1)" "items \<noteq> []"
  shows "process_pages (Suc fuel) env year page w0 s0
           = (case process_items env year page 0 items w1 s0 of
                (w2, s2) \<Rightarrow> process_pages fuel env year (page + 1) w2 s2)"
  using assms by simp

text \<open>
  C9. An exception raised in the \<open>try\<close> block of an item is caught there: the item ends
  with one error log line and with \<open>errors\<close> increased by 1. The loop then goes on with
  the items that follow on the page and, after them, requests the next page. A
  creation timestamp that does not parse and an absent \<open>uri\<close> are such exceptions.
\<close>

theorem item_exception_isolated:
  "(item_body env year pos video w s = Inl (e, w') \<longrightarrow>
      process_item env year pos video w s
        = (emit (Log ERROR (Item_error e)) w', s\<lparr>errors := errors s + 1\<rparr>))
   \<and> (item_body env year (page, length pre) video w s = Inl (e, w')
        \<and> get_videos env w0 page = (JList (pre @ video # post), w1)
        \<and> process_items env year page 0 pre w1 s0 = (w, s) \<longrightarrow>
      process_pages (Suc fuel) env year page w0 s0
        = (case process_items env year page (Suc (length pre)) post
                  (emit (Log ERROR (Item_error e)) w') (s\<lparr>errors := errors s + 1\<rparr>) of
             (w2, s2) \<Rightarrow> process_pages fuel env year (page + 1) w2 s2))
   \<and> (created_year video = Inl e \<longrightarrow> item_body env year pos video w s = Inl (e, w))
   \<and> (created_year video = Inr y \<and> int y = year \<and> py_getitem video ''uri'' = Inl e \<longrightarrow>
      item_body env year pos video w s = Inl (e, w))"
proof (intro conjI impI)
  assume "item_body env year pos video w s = Inl (e, w')"
  then show "process_item env year pos video w s
        = (emit (Log ERROR (Item_error e)) w', s\<lparr>errors := errors s + 1\<rparr>)"
    by (simp add: process_item_def item_except_def)
next
  assume a: "item_body env year (page, length pre) video w s = Inl (e, w')
        \<and> get_videos env w0 page = (JList (pre @ video # post), w1)
        \<and> process_items env year page 0 pre w1 s0 = (w, s)"
  then have item: "process_item env year (page, length pre) video w s
        = (emit (Log ERROR (Item_error e)) w', s\<lparr>errors := errors s + 1\<rparr>)"
    by (simp add: process_item_def item_except_def)
  have "process_items env year page 0 (pre @ video # post) w1 s0
          = process_items env year page (Suc (length pre)) post
              (emit (Log ERROR (Item_error e)) w') (s\<lparr>errors := errors s + 1\<rparr>)"
    using a by (simp add: process_items_append item)
  then show "process_pages (Suc fuel) env year page w0 s0
        = (case process_items env year page (Suc (length pre)) post
                  (emit (Log ERROR (Item_error e)) w') (s\<lparr>errors := errors s + 1\<rparr>) of
             (w2, s2) \<Rightarrow> process_pages fuel env year (page + 1) w2 s2)"
    using a process_pages_list [of env w0 page "pre @ video # post" w1 fuel year s0]
    by simp
next
  assume "created_year video = Inl e"
  then show "item_body env year pos video w s = Inl (e, w)"
    by (simp add: item_body_def)
next
  assume "created_year video = Inr y \<and> int y = year \<and> py_getitem video ''uri'' = Inl e"
  then show "item_body env year pos video w s = Inl (e, w)"
    by (simp add: item_body_def process_eligible_def)
qed


theorem item_exception_isolated_witness:
  "process_item (good_env []) 2022 (1, 0) item_no_uri world0 stats0
     = (emit (Log ERROR (Item_error KeyError)) world0, \<lparr>processed = 0, errors = 1\<rparr>)
   \<and> fst (process_pages (Suc (Suc 0)) (good_env [item_malformed, item_a]) 2022 1 world0 stats0)
     = Completed
   \<and> snd (snd (process_pages (Suc (Suc 0)) (good_env [item_malformed, item_a]) 2022 1
                 world0 stats0))
     = \<lparr>processed = 1, errors = 1\<rparr>"
proof -
  let ?E = "good_env [item_malformed, item_a]"
  let ?W = "request (Net_list 1) world0"
  have nouri: "created_year item_no_uri = Inr 2022 \<and> int 2022 = 2022
      \<and> py_getitem item_no_uri ''uri'' = Inl KeyError"
    by (simp add: model_defs example_defs)
  have "item_body (good_env []) 2022 (1, 0) item_no_uri world0 stats0
          = Inl (KeyError, world0)"
    using item_exception_isolated
            [THEN conjunct2, THEN conjunct2, THEN conjunct2, rule_format, OF nouri] .
  then have r1: "process_item (good_env []) 2022 (1, 0) item_no_uri world0 stats0
     = (emit (Log ERROR (Item_error KeyError)) world0, stats0\<lparr>errors := errors stats0 + 1\<rparr>)"
    using item_exception_isolated [THEN conjunct1, rule_format] by blast
  have malformed: "created_year item_malformed = Inl ValueError"
    by (simp add: model_defs example_defs)
  have raised: "item_body ?E 2022 (1, length ([] :: json list)) item_malformed ?W stats0
          = Inl (ValueError, ?W)"
    using item_exception_isolated
            [THEN conjunct2, THEN conjunct2, THEN conjunct1, rule_format, OF malformed] .
  have listing: "get_videos ?E world0 1 = (JList ([] @ item_malformed # [item_a]), ?W)"
    by (simp add: get_videos_def good_env_def ok_page_def raise_for_status_def world0_def
          request_def)
  have hyp: "item_body ?E 2022 (1, length ([] :: json list)) item_malformed ?W stats0
          = Inl (ValueError, ?W)
      \<and> get_videos ?E world0 1 = (JList ([] @ item_malformed # [item_a]), ?W)
      \<and> process_items ?E 2022 1 0 [] ?W stats0 = (?W, stats0)"
    using raised listing by simp
  note step = item_exception_isolated
                [THEN conjunct2, THEN conjunct1, rule_format, OF hyp, of "Suc 0"]
  have r2: "fst (process_pages (Suc (Suc 0)) ?E 2022 1 world0 stats0) = Completed
     \<and> snd (snd (process_pages (Suc (Suc 0)) ?E 2022 1 world0 stats0))
         = \<lparr>processed = 1, errors = 1\<rparr>"
    unfolding step by (simp add: model_defs example_defs)
  show ?thesis using r1 r2 by (simp add: stats0_def)
qed

section \<open>Deletion is gated on a successful download\<close>

lemma quiet_well_ordered:
  assumes "list_all is_quiet A"
  shows "well_ordered A"
proof -
  have "\<not> is_quiet (Delete_called p u)" "\<not> is_quiet (Download_returned p l n b)"
       "\<not> is_quiet (Net_delete u)" for p u l n b
    by simp_all
  with assms show ?thesis
    unfolding well_ordered_def delete_gated_def download_answered_def deletion_called_def
      list_all_iff
    by (metis in_set_conv_decomp)
qed

lemma delete_gated_append:
  assumes "delete_gated a" "delete_gated b"
  shows "delete_gated (a @ b)"
  unfolding delete_gated_def
proof (intro allI impI)
  fix pre p u post
  assume eq: "a @ b = pre @ Delete_called p u # post"
  then consider (left) us where "a = pre @ Delete_called p u # us"
    | (right) us where "pre = a @ us" "b = us @ Delete_called p u # post"
    by (auto simp: append_eq_append_conv2 append_eq_Cons_conv Cons_eq_append_conv)
  then show "\<exists>l n. Download_returned p l n True \<in> set pre"
  proof cases
    case left
    with assms(1) show ?thesis unfolding delete_gated_def by blast
  next
    case right
    with assms(2) have "\<exists>l n. Download_returned p l n True \<in> set us"
      unfolding delete_gated_def by blast
    with right show ?thesis by auto
  qed
qed

lemma download_answered_append:
  "download_answered a \<Longrightarrow> download_answered b \<Longrightarrow> download_answered (a @ b)"
  unfolding download_answered_def by (metis Un_iff set_append)

lemma deletion_called_append:
  assumes "deletion_called a" "deletion_called b"
  shows "deletion_called (a @ b)"
  unfolding deletion_called_def
proof (intro allI impI)
  fix pre u post
  assume eq: "a @ b = pre @ Net_delete u # post"
  then consider (left) us where "a = pre @ Net_delete u # us"
    | (right) us where "pre = a @ us" "b = us @ Net_delete u # post"
    by (auto simp: append_eq_append_conv2 append_eq_Cons_conv Cons_eq_append_conv)
  then show "\<exists>p pre'. pre = pre' @ [Delete_called p u]"
  proof cases
    case left
    with assms(1) show ?thesis unfolding deletion_called_def by blast
  next
    case right
    with assms(2) obtain p pre' where "us = pre' @ [Delete_called p u]"
      unfolding deletion_called_def by blast
    with right show ?thesis by auto
  qed
qed

lemma well_ordered_append:
  "well_ordered a \<Longrightarrow> well_ordered b \<Longrightarrow> well_ordered (a @ b)"
  unfolding well_ordered_def
  by (simp add: delete_gated_append download_answered_append deletion_called_append)

lemma well_ordered_failed_download: "well_ordered [Download_returned p l n False]"
  unfolding well_ordered_def delete_gated_def download_answered_def deletion_called_def
  by (auto simp: Cons_eq_append_conv)

lemma well_ordered_deleted:
  "well_ordered [Download_returned p l n True, Delete_called p u, Net_delete u, Log lv m,
                 Delete_returned p d]"
  unfolding well_ordered_def delete_gated_def download_answered_def deletion_called_def
  by (auto simp: Cons_eq_append_conv)


lemma download_video_trace:
  "\<exists>A. trace (snd (download_video env w link video_name)) = trace w @ A \<and> list_all is_quiet A"
  by (auto simp: download_video_def download_failed_def request_def emit_def Let_def
      split: sum.splits option.splits)

lemma delete_video_trace:
  "\<exists>lv msg. trace (snd (delete_video env w u)) = trace w @ [Net_delete u, Log lv msg]"
  by (auto simp: delete_video_def request_def emit_def Let_def split: sum.splits)

lemma get_download_link_trace:
  "\<exists>A. trace (snd (get_download_link video w)) = trace w @ A \<and> list_all is_quiet A"
  by (auto simp: get_download_link_def emit_def split: sum.splits)

lemma get_videos_trace:
  "\<exists>A. trace (snd (get_videos env w page)) = trace w @ A \<and> list_all is_quiet A"
  by (auto simp: get_videos_def request_def emit_def Let_def split: sum.splits option.splits)

lemma download_then_delete_trace:
  "\<exists>evs. trace (fst (download_then_delete env pos u link video_name w s)) = trace w @ evs
         \<and> well_ordered evs"
proof (cases "download_video env w link video_name")
  case (Pair ok w1)
  obtain A where A: "trace w1 = trace w @ A" "list_all is_quiet A"
    using download_video_trace [of env w link video_name] Pair by auto
  show ?thesis
  proof (cases ok)
    case False
    then have "trace (fst (download_then_delete env pos u link video_name w s))
                 = trace w @ (A @ [Download_returned pos link video_name False])"
      using Pair A by (simp add: download_then_delete_def emit_def)
    moreover have "well_ordered (A @ [Download_returned pos link video_name False])"
      using A(2) by (intro well_ordered_append quiet_well_ordered well_ordered_failed_download)
    ultimately show ?thesis by blast
  next
    case True
    let ?w2 = "emit (Delete_called pos u) (emit (Download_returned pos link video_name True) w1)"
    obtain lv msg where
      D: "trace (snd (delete_video env ?w2 u)) = trace ?w2 @ [Net_delete u, Log lv msg]"
      using delete_video_trace by blast
    obtain d w3 where del: "delete_video env ?w2 u = (d, w3)"
      by (cases "delete_video env ?w2 u")
    have "trace (fst (download_then_delete env pos u link video_name w s))
            = trace w @ (A @ [Download_returned pos link video_name True, Delete_called pos u,
                              Net_delete u, Log lv msg, Delete_returned pos d])"
      using Pair True A D del by (auto simp: download_then_delete_def emit_def Let_def)
    moreover have "well_ordered (A @ [Download_returned pos link video_name True,
                      Delete_called pos u, Net_delete u, Log lv msg, Delete_returned pos d])"
      using A(2) by (intro well_ordered_append quiet_well_ordered well_ordered_deleted)
    ultimately show ?thesis by blast
  qed
qed

lemma well_ordered_Nil: "well_ordered []"
  by (simp add: quiet_well_ordered)

lemma process_eligible_trace:
  "\<exists>evs. trace (case process_eligible env pos video w s of
                  Inl (e, w') \<Rightarrow> w' | Inr (w', s') \<Rightarrow> w') = trace w @ evs
         \<and> well_ordered evs"
proof (cases "py_getitem video ''uri''")
  case (Inl e)
  then show ?thesis
    using well_ordered_Nil by (auto simp: process_eligible_def)
next
  case uri: (Inr u)
  show ?thesis
  proof (cases "video_name_of video")
    case (Inl e)
    then show ?thesis
      using uri well_ordered_Nil by (auto simp: process_eligible_def)
  next
    case name: (Inr n)
    obtain r w1 where g: "get_download_link video w = (r, w1)"
      by (cases "get_download_link video w")
    obtain A where A: "trace w1 = trace w @ A" "list_all is_quiet A"
      using get_download_link_trace [of video w] g by auto
    show ?thesis
    proof (cases r)
      case (Inl e)
      then show ?thesis
        using uri name g A quiet_well_ordered by (auto simp: process_eligible_def)
    next
      case link: (Inr l)
      show ?thesis
      proof (cases "py_truthy l")
        case False
        then show ?thesis
          using uri name g link A quiet_well_ordered by (auto simp: process_eligible_def)
      next
        case True
        obtain evs where
          E: "trace (fst (download_then_delete env pos u l n w1 s)) = trace w1 @ evs"
             "well_ordered evs"
          using download_then_delete_trace by blast
        have "trace (case process_eligible env pos video w s of
                  Inl (e, w') \<Rightarrow> w' | Inr (w', s') \<Rightarrow> w') = trace w @ (A @ evs)"
          using uri name g link True A E
          by (cases "download_then_delete env pos u l n w1 s")
             (simp add: process_eligible_def)
        moreover have "well_ordered (A @ evs)"
          using A(2) E(2) by (simp add: well_ordered_append quiet_well_ordered)
        ultimately show ?thesis by blast
      qed
    qed
  qed
qed

lemma process_item_trace:
  "\<exists>evs. trace (fst (process_item env year pos video w s)) = trace w @ evs
         \<and> well_ordered evs"
proof (cases "created_year video")
  case (Inl e)
  have "well_ordered [Log ERROR (Item_error e)]"
    by (simp add: quiet_well_ordered)
  then show ?thesis
    using Inl by (auto simp: process_item_def item_body_def item_except_def emit_def)
next
  case (Inr y)
  show ?thesis
  proof (cases "int y = year")
    case False
    then show ?thesis
      using Inr well_ordered_Nil by (auto simp: process_item_def item_body_def)
  next
    case True
    obtain evs where
      E: "trace (case process_eligible env pos video w s of
                  Inl (e, w') \<Rightarrow> w' | Inr (w', s') \<Rightarrow> w') = trace w @ evs"
         "well_ordered evs"
      using process_eligible_trace by blast
    show ?thesis
    proof (cases "process_eligible env pos video w s")
      case (Inl a)
      obtain e w' where a: "a = (e, w')" by (cases a)
      have "trace (fst (process_item env year pos video w s))
              = trace w @ (evs @ [Log ERROR (Item_error e)])"
        using Inr True Inl a E(1)
        by (simp add: process_item_def item_body_def item_except_def emit_def)
      moreover have "well_ordered (evs @ [Log ERROR (Item_error e)])"
        using E(2) by (intro well_ordered_append) (simp_all add: quiet_well_ordered)
      ultimately show ?thesis by blast
    next
      case (Inr b)
      obtain w' s' where b: "b = (w', s')" by (cases b)
      have "trace (fst (process_item env year pos video w s)) = trace w @ evs"
        using \<open>created_year video = Inr y\<close> True Inr b E(1)
        by (simp add: process_item_def item_body_def)
      then show ?thesis using E(2) by blast
    qed
  qed
qed

lemma process_items_trace:
  "\<exists>evs. trace (fst (process_items env year page i videos w s)) = trace w @ evs
         \<and> well_ordered evs"
proof (induction videos arbitrary: i w s)
  case Nil
  then show ?case using well_ordered_Nil by simp
next
  case (Cons video videos)
  obtain w1 s1 where step: "process_item env year (page, i) video w s = (w1, s1)"
    by (cases "process_item env year (page, i) video w s")
  obtain a where a: "trace w1 = trace w @ a" "well_ordered a"
    using process_item_trace [of env year "(page, i)" video w s] step by auto
  obtain b where b: "trace (fst (process_items env year page (Suc i) videos w1 s1))
                       = trace w1 @ b" "well_ordered b"
    using Cons.IH by blast
  have "trace (fst (process_items env year page i (video # videos) w s)) = trace w @ (a @ b)"
    using step a b by simp
  then show ?case using a(2) b(2) well_ordered_append by blast
qed

lemma process_pages_trace:
  "\<exists>evs. trace (fst (snd (process_pages fuel env year page w s))) = trace w @ evs
         \<and> well_ordered evs"
proof (induction fuel arbitrary: page w s)
  case 0
  then show ?case using well_ordered_Nil by simp
next
  case (Suc fuel)
  obtain videos w1 where g: "get_videos env w page = (videos, w1)"
    by (cases "get_videos env w page")
  obtain A where A: "trace w1 = trace w @ A" "list_all is_quiet A"
    using get_videos_trace [of env w page] g by auto
  then have wA: "well_ordered A" by (simp add: quiet_well_ordered)
  show ?case
  proof (cases "py_truthy videos")
    case False
    then show ?thesis using g A wA by auto
  next
    case True
    show ?thesis
    proof (cases "py_iter videos")
      case (Inl e)
      then show ?thesis using g True A wA by auto
    next
      case (Inr items)
      obtain w2 s2 where p: "process_items env year page 0 items w1 s = (w2, s2)"
        by (cases "process_items env year page 0 items w1 s")
      obtain b where b: "trace w2 = trace w1 @ b" "well_ordered b"
        using process_items_trace [of env year page 0 items w1 s] p by auto
      obtain c where c: "trace (fst (snd (process_pages fuel env year (page + 1) w2 s2)))
                           = trace w2 @ c" "well_ordered c"
        using Suc.IH by blast
      have "trace (fst (snd (process_pages (Suc fuel) env year page w s)))
              = trace w @ (A @ b @ c)"
        using g True Inr p A b c by simp
      moreover have "well_ordered (A @ b @ c)"
        using wA b(2) c(2) by (intro well_ordered_append)
      ultimately show ?thesis by blast
    qed
  qed
qed

lemma process_videos_trace:
  "\<exists>evs. trace (fst (snd (process_videos fuel env year w))) = trace w @ evs
         \<and> well_ordered evs"
proof -
  let ?s = "\<lparr>processed = 0, errors = 0\<rparr>"
  obtain evs where e: "trace (fst (snd (process_pages fuel env year 1 w ?s))) = trace w @ evs"
      "well_ordered evs"
    using process_pages_trace by blast
  obtain st w' s' where r: "process_pages fuel env year 1 w ?s = (st, w', s')"
    by (cases "process_pages fuel env year 1 w ?s") auto
  show ?thesis
  proof (cases "st = Completed")
    case True
    have "trace (fst (snd (process_videos fuel env year w)))
            = trace w @ (evs @ [Log INFO (Complete (processed s') (errors s'))])"
      using r True e(1) by (simp add: process_videos_def emit_def)
    moreover have "well_ordered (evs @ [Log INFO (Complete (processed s') (errors s'))])"
      using e(2) by (intro well_ordered_append) (simp_all add: quiet_well_ordered)
    ultimately show ?thesis by blast
  next
    case False
    then show ?thesis using r e by (auto simp: process_videos_def)
  qed
qed

text \<open>
  C1. In a run of \<open>process_videos\<close> that starts with an empty trace, for any number of
  pages processed and whether the run has completed, was aborted or is still going on:
  \<open>delete_video\<close> is called for the item at position \<open>p\<close> if and only if
  \<open>download_video\<close> has returned success for the item at \<open>p\<close>; every such call
  comes later in the trace than that return; and every deletion request sent to the
  API directly follows such a call, with the same URI.
\<close>

theorem delete_iff_download_succeeded:
  assumes "trace w = []"
  shows "((\<exists>u. Delete_called p u \<in> set (trace (fst (snd (process_videos fuel env year w)))))
            = (\<exists>l n. Download_returned p l n True
                       \<in> set (trace (fst (snd (process_videos fuel env year w))))))
       \<and> (\<forall>pre u post.
             trace (fst (snd (process_videos fuel env year w))) = pre @ Delete_called p u # post
             \<longrightarrow> (\<exists>l n. Download_returned p l n True \<in> set pre))
       \<and> (\<forall>pre u post.
             trace (fst (snd (process_videos fuel env year w))) = pre @ Net_delete u # post
             \<longrightarrow> (\<exists>q pre'. pre = pre' @ [Delete_called q u]))"
proof -
  let ?tr = "trace (fst (snd (process_videos fuel env year w)))"
  have wo: "well_ordered ?tr"
    using process_videos_trace [of fuel env year w] assms by auto
  then have gated: "\<forall>pre u post. ?tr = pre @ Delete_called p u # post
             \<longrightarrow> (\<exists>l n. Download_returned p l n True \<in> set pre)"
    unfolding well_ordered_def delete_gated_def by blast
  have called: "\<forall>pre u post. ?tr = pre @ Net_delete u # post
             \<longrightarrow> (\<exists>q pre'. pre = pre' @ [Delete_called q u])"
    using wo unfolding well_ordered_def deletion_called_def by blast
  have "(\<exists>u. Delete_called p u \<in> set ?tr) = (\<exists>l n. Download_returned p l n True \<in> set ?tr)"
  proof
    assume "\<exists>u. Delete_called p u \<in> set ?tr"
    then obtain u pre post where s: "?tr = pre @ Delete_called p u # post"
      by (meson split_list)
    with gated obtain l n where "Download_returned p l n True \<in> set pre" by blast
    with s have "Download_returned p l n True \<in> set ?tr" by simp
    then show "\<exists>l n. Download_returned p l n True \<in> set ?tr" by blast
  next
    assume "\<exists>l n. Download_returned p l n True \<in> set ?tr"
    with wo show "\<exists>u. Delete_called p u \<in> set ?tr"
      unfolding well_ordered_def download_answered_def by blast
  qed
  with gated called show ?thesis by blast
qed


theorem delete_iff_download_succeeded_witness:
  "trace world0 = []
   \<and> (\<exists>l n. Download_returned (1, 1) l n True
         \<in> set (trace (fst (snd (process_videos 3 (flaky_env [item_a, item_b] 1) 2022 world0)))))
   \<and> (\<exists>u. Delete_called (1, 1) u
         \<in> set (trace (fst (snd (process_videos 3 (flaky_env [item_a, item_b] 1) 2022 world0)))))
   \<and> \<not> (\<exists>u. Delete_called (1, 0) u
         \<in> set (trace (fst (snd (process_videos 3 (flaky_env [item_a, item_b] 1) 2022 world0)))))"
proof -
  let ?tr = "trace (fst (snd (process_videos 3 (flaky_env [item_a, item_b] 1) 2022 world0)))"
  have fresh: "trace world0 = []"
    by (simp add: world0_def)
  have run: "?tr =
    [Net_list 1, Net_get (JStr ''https://cdn/1''), Log ERROR (Download_failed ''a_b''),
     Download_returned (1, 0) (JStr ''https://cdn/1'') ''a_b'' False,
     Net_get (JStr ''https://cdn/2''),
     Download_returned (1, 1) (JStr ''https://cdn/2'') ''a_b'' True,
     Delete_called (1, 1) (JStr ''/videos/2''), Net_delete (JStr ''/videos/2''),
     Log INFO (Deleted (JStr ''/videos/2'')), Delete_returned (1, 1) True, Net_list 2,
     Log INFO (Complete 1 1)]"
    by (simp add: numeral_3_eq_3 model_defs example_defs)
  have ok: "\<exists>l n. Download_returned (1, 1) l n True \<in> set ?tr"
    unfolding run by simp
  have failed: "\<not> (\<exists>l n. Download_returned (1, 0) l n True \<in> set ?tr)"
    unfolding run by simp
  note gate = delete_iff_download_succeeded [OF fresh, THEN conjunct1]
  have "\<exists>u. Delete_called (1, 1) u \<in> set ?tr"
    using ok unfolding gate [of "(1, 1)" 3 "flaky_env [item_a, item_b] 1" 2022] .
  moreover have "\<not> (\<exists>u. Delete_called (1, 0) u \<in> set ?tr)"
    using failed unfolding gate [of "(1, 0)" 3 "flaky_env [item_a, item_b] 1" 2022] .
  ultimately show ?thesis using fresh ok by blast
qed

section \<open>Two items with the same name\<close>










lemma run_reaches_trans:
  assumes "run_reaches env year w1 w2" "run_reaches env year w0 w1"
  shows "run_reaches env year w0 w2"
  using assms
  by (induction rule: run_reaches.induct) (auto intro: run_reaches.intros)

lemma run_reaches_items:
  "run_reaches env year w (fst (process_items env year page i videos w s))"
proof (induction videos arbitrary: i w s)
  case Nil
  show ?case by (simp add: reaches_start)
next
  case (Cons video videos)
  obtain w1 s1 where step: "process_item env year (page, i) video w s = (w1, s1)"
    by (cases "process_item env year (page, i) video w s")
  have "run_reaches env year w w1"
    using reaches_item [OF reaches_start, of env year w "(page, i)" video s] step by simp
  moreover have "run_reaches env year w1 (fst (process_items env year page (Suc i) videos w1 s1))"
    by (rule Cons.IH)
  ultimately show ?case
    using step by (simp add: run_reaches_trans)
qed

lemma run_reaches_pages:
  "run_reaches env year w (fst (snd (process_pages fuel env year page w s)))"
proof (induction fuel arbitrary: page w s)
  case 0
  show ?case by (simp add: reaches_start)
next
  case (Suc fuel)
  obtain videos w1 where g: "get_videos env w page = (videos, w1)"
    by (cases "get_videos env w page")
  have r1: "run_reaches env year w w1"
    using reaches_page [OF reaches_start, of env year w page] g by simp
  show ?case
  proof (cases "py_iter videos")
    case (Inl e)
    then show ?thesis using g r1 by simp
  next
    case (Inr items)
    obtain w2 s2 where ps: "process_items env year page 0 items w1 s = (w2, s2)"
      by (cases "process_items env year page 0 items w1 s")
    have r2: "run_reaches env year w1 w2"
      using run_reaches_items [of env year w1 page 0 items s] ps by simp
    have "run_reaches env year w2 (fst (snd (process_pages fuel env year (page + 1) w2 s2)))"
      by (rule Suc.IH)
    then have "run_reaches env year w (fst (snd (process_pages fuel env year (page + 1) w2 s2)))"
      using r1 r2 run_reaches_trans by blast
    then show ?thesis using g r1 Inr ps by simp
  qed
qed





end
